theory Spec2Isabelle
  imports Complex_Main "HOL-Library.Log_Nat" "HOL-Library.Sublist"
begin

section \<open>Bank clients: records, parsing and the three queries of \<open>class_clients.py\<close>\<close>

text \<open>
  The program reads a text file of client records and answers three queries: the clients
  of one bank, the client with the largest earnings per day and the client with the
  largest loss per day. The model follows the source function by function.

  \<^item> Python's unbounded \<open>int\<close> is \<open>int\<close>.
  \<^item> A Python \<open>float\<close> that a division of two ints produces is a finite double; it is
    represented by the rational number it denotes (\<open>0.0\<close> and \<open>-0.0\<close> are both \<open>0\<close>;
    Python compares them equal). The sentinels \<open>float('-inf')\<close> and \<open>float('inf')\<close>
    of the two scans are \<open>None\<close> in an \<open>option\<close>.
  \<^item> Text is a list of 8-bit characters, each standing for the code point of the same
    number; code points above 255 are outside the model.
  \<^item> The file system is a partial map from file names to the text of the file; a name
    outside its domain makes \<open>open\<close> raise \<open>FileNotFoundError\<close>.
  \<^item> An exception is the \<open>Inl\<close> of a sum; what \<open>print\<close> writes is returned as a
    list of lines beside the result.

  Left out: errors of \<open>open\<close> other than the missing file, errors of decoding, and
  the interpreter's configurable limit on the number of digits \<open>int\<close> converts.
\<close>

subsection \<open>Exceptions\<close>

datatype py_error = ValueError | ZeroDivisionError | OverflowError

subsection \<open>True division of ints\<close>

text \<open>
  \<open>a / b\<close> on Python ints raises \<open>ZeroDivisionError\<close> for \<open>b = 0\<close>, and otherwise
  returns the double nearest to the exact quotient (round half to even on a 53-bit
  significand, with gradual underflow below \<open>2^-1022\<close>); when the rounded magnitude
  reaches \<open>2^1024\<close> it raises \<open>OverflowError\<close>.
\<close>

definition pow2 :: "int \<Rightarrow> rat" where
  "pow2 k = (if 0 \<le> k then 2 ^ nat k else 1 / 2 ^ nat (- k))"

definition floor_log2 :: "int \<Rightarrow> int \<Rightarrow> int" where
  \<comment> \<open>for positive \<open>a\<close> and \<open>b\<close>: the \<open>e\<close> with \<open>2^e \<le> a / b < 2^(e+1)\<close>\<close>
  "floor_log2 a b =
     (let k = bitlen a - bitlen b
      in if pow2 k * of_int b \<le> of_int a then k else k - 1)"

definition round_half_even :: "rat \<Rightarrow> int" where
  "round_half_even x =
     (let f = \<lfloor>x\<rfloor>; r = x - of_int f
      in if r < 1 / 2 then f
         else if 1 / 2 < r then f + 1
         else if even f then f else f + 1)"

definition nearest_double :: "int \<Rightarrow> int \<Rightarrow> rat" where
  \<comment> \<open>for positive \<open>a\<close> and \<open>b\<close>: \<open>a / b\<close> rounded to the spacing of the doubles around it\<close>
  "nearest_double a b =
     (let ulp = pow2 (max (floor_log2 a b - 52) (- 1074))
      in of_int (round_half_even (of_int a / of_int b / ulp)) * ulp)"

definition true_div :: "int \<Rightarrow> int \<Rightarrow> py_error + rat" where
  "true_div a b =
     (if b = 0 then Inl ZeroDivisionError
      else if a = 0 then Inr 0
      else let v = nearest_double \<bar>a\<bar> \<bar>b\<bar>
           in if 2 ^ 1024 \<le> v then Inl OverflowError
              else Inr (if (a < 0) = (b < 0) then v else - v))"

subsection \<open>The class \<open>Client\<close>\<close>

record client =
  name :: string
  bank :: string
  account_age :: int
  starting_amount :: int
  current_amount :: int

definition earnings_per_day :: "client \<Rightarrow> py_error + rat" where
  "earnings_per_day self =
     true_div (current_amount self - starting_amount self) (account_age self)"

subsection \<open>Text: \<open>str.strip\<close>, \<open>str.split\<close>, \<open>int\<close>, \<open>readlines\<close>\<close>

definition LF :: char where "LF = CHR 0x0A"
definition CR :: char where "CR = CHR 0x0D"

definition is_space :: "char \<Rightarrow> bool" where
  \<comment> \<open>\<open>str.isspace\<close> on the code points below 256\<close>
  "is_space c =
     (let n = (of_char c :: nat)
      in (9 \<le> n \<and> n \<le> 13) \<or> (28 \<le> n \<and> n \<le> 32) \<or> n = 133 \<or> n = 160)"

definition strip :: "string \<Rightarrow> string" where
  "strip s = rev (dropWhile is_space (rev (dropWhile is_space s)))"

fun split_on :: "char \<Rightarrow> string \<Rightarrow> string list" where
  "split_on sep [] = [[]]"
| "split_on sep (c # cs) =
     (if c = sep then [] # split_on sep cs
      else (case split_on sep cs of [] \<Rightarrow> [[c]] | f # fs \<Rightarrow> (c # f) # fs))"

definition is_digit :: "char \<Rightarrow> bool" where
  "is_digit c = (let n = (of_char c :: nat) in 48 \<le> n \<and> n \<le> 57)"

definition digit_val :: "char \<Rightarrow> int" where
  "digit_val c = int (of_char c) - 48"

fun digits_from :: "int \<Rightarrow> string \<Rightarrow> int option" where
  \<comment> \<open>the rest of a decimal literal after a digit: digits, single underscores between them\<close>
  "digits_from n [] = Some n"
| "digits_from n [c] = (if is_digit c then Some (10 * n + digit_val c) else None)"
| "digits_from n (c # d # ds) =
     (if is_digit c then digits_from (10 * n + digit_val c) (d # ds)
      else if c = CHR ''_'' \<and> is_digit d then digits_from (10 * n + digit_val d) ds
      else None)"

definition decimal :: "string \<Rightarrow> int option" where
  "decimal s =
     (case s of
        [] \<Rightarrow> None
      | c # cs \<Rightarrow> if is_digit c then digits_from (digit_val c) cs else None)"

definition py_int :: "string \<Rightarrow> py_error + int" where
  \<comment> \<open>\<open>int(s)\<close> for a string: whitespace around, an optional sign, a decimal literal\<close>
  "py_int s =
     (let t = strip s;
          r = (case t of
                 [] \<Rightarrow> None
               | c # cs \<Rightarrow>
                   if c = CHR ''-'' then map_option uminus (decimal cs)
                   else if c = CHR ''+'' then decimal cs
                   else decimal t)
      in case r of None \<Rightarrow> Inl ValueError | Some n \<Rightarrow> Inr n)"

fun universal_newlines :: "string \<Rightarrow> string" where
  \<comment> \<open>text mode translates \<open>\r\n\<close> and \<open>\r\<close> to \<open>\n\<close>\<close>
  "universal_newlines [] = []"
| "universal_newlines [c] = [if c = CR then LF else c]"
| "universal_newlines (c # d # ds) =
     (if c = CR then LF # (if d = LF then universal_newlines ds else universal_newlines (d # ds))
      else c # universal_newlines (d # ds))"

fun readlines :: "string \<Rightarrow> string list" where
  \<comment> \<open>the lines of a text, each with its line end; the last one may lack it\<close>
  "readlines [] = []"
| "readlines (c # cs) =
     (if c = LF then [c] # readlines cs
      else (case readlines cs of [] \<Rightarrow> [[c]] | l # ls \<Rightarrow> (c # l) # ls))"

subsection \<open>\<open>read_from_file_into_list\<close>\<close>

type_synonym filesystem = "string \<Rightarrow> string option"

type_synonym 'a outcome = "string list \<times> (py_error + 'a)"

definition parse_line :: "string \<Rightarrow> py_error + client" where
  \<comment> \<open>the body of the loop: unpack the five fields, cast three of them, build the client\<close>
  "parse_line line =
     (case split_on CHR '','' (strip line) of
        [n, b, a, s, c] \<Rightarrow>
          (case py_int a of
             Inl e \<Rightarrow> Inl e
           | Inr age \<Rightarrow>
               (case py_int s of
                  Inl e \<Rightarrow> Inl e
                | Inr start \<Rightarrow>
                    (case py_int c of
                       Inl e \<Rightarrow> Inl e
                     | Inr cur \<Rightarrow>
                         Inr \<lparr>name = n, bank = b, account_age = age,
                              starting_amount = start, current_amount = cur\<rparr>)))
      | _ \<Rightarrow> Inl ValueError)"

fun read_loop :: "client list \<Rightarrow> string list \<Rightarrow> py_error + client list" where
  "read_loop clients [] = Inr clients"
| "read_loop clients (line # rest) =
     (case parse_line line of
        Inl e \<Rightarrow> Inl e
      | Inr c \<Rightarrow> read_loop (clients @ [c]) rest)"

definition read_from_file_into_list :: "filesystem \<Rightarrow> string \<Rightarrow> client list outcome" where
  "read_from_file_into_list fs filename =
     (case fs filename of
        None \<Rightarrow> ([''File '' @ filename @ '' not found.''], Inr [])
      | Some text \<Rightarrow> ([], read_loop [] (readlines (universal_newlines text))))"

subsection \<open>\<open>filter_by_bank\<close>\<close>

fun bank_comprehension :: "string \<Rightarrow> client list \<Rightarrow> client list" where
  "bank_comprehension b [] = []"
| "bank_comprehension b (c # cs) =
     (if bank c = b then c # bank_comprehension b cs else bank_comprehension b cs)"

definition filter_by_bank :: "filesystem \<Rightarrow> string \<Rightarrow> string \<Rightarrow> client list outcome" where
  "filter_by_bank fs filename b =
     (case read_from_file_into_list fs filename of
        (out, Inl e) \<Rightarrow> (out, Inl e)
      | (out, Inr clients) \<Rightarrow> (out, Inr (bank_comprehension b clients)))"

subsection \<open>\<open>largest_earnings_per_day\<close> and \<open>largest_loss_per_day\<close>\<close>

definition above :: "rat \<Rightarrow> rat option \<Rightarrow> bool" where
  \<comment> \<open>\<open>x > m\<close> where \<open>None\<close> is \<open>float('-inf')\<close>\<close>
  "above x m = (case m of None \<Rightarrow> True | Some y \<Rightarrow> y < x)"

definition sooner :: "int \<Rightarrow> int option \<Rightarrow> bool" where
  \<comment> \<open>\<open>a < t\<close> where \<open>None\<close> is \<open>float('inf')\<close>\<close>
  "sooner a t = (case t of None \<Rightarrow> True | Some u \<Rightarrow> a < u)"

type_synonym scan = "rat option \<times> int option \<times> client option"

fun earnings_loop :: "scan \<Rightarrow> client list \<Rightarrow> py_error + scan" where
  "earnings_loop st [] = Inr st"
| "earnings_loop (max_earning, earliest_time, result) (c # cs) =
     (case earnings_per_day c of
        Inl e \<Rightarrow> Inl e
      | Inr earning \<Rightarrow>
          if above earning max_earning
             \<or> (max_earning = Some earning \<and> sooner (account_age c) earliest_time)
          then earnings_loop (Some earning, Some (account_age c), Some c) cs
          else earnings_loop (max_earning, earliest_time, result) cs)"

definition positive_max :: "rat option \<Rightarrow> bool" where
  \<comment> \<open>\<open>m > 0\<close> where \<open>None\<close> is \<open>float('-inf')\<close>\<close>
  "positive_max m = (case m of None \<Rightarrow> False | Some x \<Rightarrow> 0 < x)"

definition largest_earnings_in :: "client list \<Rightarrow> py_error + client option" where
  \<comment> \<open>lines 86 to 97: the function after the file is read\<close>
  "largest_earnings_in clients =
     (case earnings_loop (None, None, None) clients of
        Inl e \<Rightarrow> Inl e
      | Inr (max_earning, earliest_time, result) \<Rightarrow>
          Inr (if positive_max max_earning then result else None))"

definition largest_earnings_per_day :: "filesystem \<Rightarrow> string \<Rightarrow> client option outcome" where
  "largest_earnings_per_day fs filename =
     (case read_from_file_into_list fs filename of
        (out, Inl e) \<Rightarrow> (out, Inl e)
      | (out, Inr clients) \<Rightarrow> (out, largest_earnings_in clients))"

definition loss_per_day :: "client \<Rightarrow> py_error + rat" where
  \<comment> \<open>line 114\<close>
  "loss_per_day c = true_div (starting_amount c - current_amount c) (account_age c)"

fun loss_loop :: "scan \<Rightarrow> client list \<Rightarrow> py_error + scan" where
  "loss_loop st [] = Inr st"
| "loss_loop (max_loss_per_day, earliest_time, result) (c # cs) =
     (case loss_per_day c of
        Inl e \<Rightarrow> Inl e
      | Inr loss \<Rightarrow>
          if above loss max_loss_per_day
             \<or> (max_loss_per_day = Some loss \<and> sooner (account_age c) earliest_time)
          then loss_loop (Some loss, Some (account_age c), Some c) cs
          else loss_loop (max_loss_per_day, earliest_time, result) cs)"

definition largest_loss_in :: "client list \<Rightarrow> py_error + client option" where
  \<comment> \<open>lines 109 to 120: the function after the file is read\<close>
  "largest_loss_in clients =
     (case loss_loop (None, None, None) clients of
        Inl e \<Rightarrow> Inl e
      | Inr (max_loss_per_day, earliest_time, result) \<Rightarrow>
          Inr (if positive_max max_loss_per_day then result else None))"

definition largest_loss_per_day :: "filesystem \<Rightarrow> string \<Rightarrow> client option outcome" where
  "largest_loss_per_day fs filename =
     (case read_from_file_into_list fs filename of
        (out, Inl e) \<Rightarrow> (out, Inl e)
      | (out, Inr clients) \<Rightarrow> (out, largest_loss_in clients))"

section \<open>Notions used to state the properties\<close>

subsection \<open>The two scans as one loop over a rate function\<close>

fun rate_loop :: "(client \<Rightarrow> py_error + rat) \<Rightarrow> scan \<Rightarrow> client list \<Rightarrow> py_error + scan" where
  "rate_loop rate st [] = Inr st"
| "rate_loop rate (best_rate, earliest_time, result) (c # cs) =
     (case rate c of
        Inl e \<Rightarrow> Inl e
      | Inr r \<Rightarrow>
          if above r best_rate \<or> (best_rate = Some r \<and> sooner (account_age c) earliest_time)
          then rate_loop rate (Some r, Some (account_age c), Some c) cs
          else rate_loop rate (best_rate, earliest_time, result) cs)"

definition extremal_at :: "rat list \<Rightarrow> client list \<Rightarrow> nat \<Rightarrow> bool" where
  \<comment> \<open>position \<open>i\<close> has the maximal rate, the least age among the records of that rate,
      and is the first one with that rate and that age\<close>
  "extremal_at vs cs i =
     ((\<forall>j<length cs. vs ! j \<le> vs ! i)
      \<and> (\<forall>j<length cs. vs ! j = vs ! i \<longrightarrow> account_age (cs ! i) \<le> account_age (cs ! j))
      \<and> (\<forall>j<i. vs ! j = vs ! i \<longrightarrow> account_age (cs ! j) \<noteq> account_age (cs ! i)))"

subsection \<open>The file of the \<open>__main__\<close> block\<close>

definition ann :: client where
  "ann = \<lparr>name = ''Ann'', bank = ''Sprint'', account_age = 10,
          starting_amount = 1000, current_amount = 1000\<rparr>"

definition mark :: client where
  "mark = \<lparr>name = ''Mark'', bank = ''Sprint'', account_age = 5,
           starting_amount = 500, current_amount = 600\<rparr>"

definition josh :: client where
  "josh = \<lparr>name = ''Josh'', bank = ''Chase'', account_age = 2,
           starting_amount = 100, current_amount = 300\<rparr>"

definition jonah :: client where
  "jonah = \<lparr>name = ''Jonah'', bank = ''Chase'', account_age = 100,
            starting_amount = 1000, current_amount = 900\<rparr>"

definition franz :: client where
  "franz = \<lparr>name = ''Franz'', bank = ''WellsFargo'', account_age = 4,
            starting_amount = 1000, current_amount = 200\<rparr>"

definition clients_info_txt :: string where
  "clients_info_txt =
     ''Ann,Sprint,10,1000,1000'' @ [LF] @
     ''Mark,Sprint,5,500,600'' @ [LF] @
     ''Josh,Chase,2,100,300'' @ [LF] @
     ''Jonah,Chase,100,1000,900'' @ [LF] @
     ''Franz,WellsFargo,4,1000,200'' @ [LF]"

definition disk :: filesystem where
  "disk = [''clients_info.txt'' \<mapsto> clients_info_txt]"

subsection \<open>Records that tie\<close>

definition tie :: "string \<Rightarrow> int \<Rightarrow> int \<Rightarrow> int \<Rightarrow> client" where
  "tie n age start cur = \<lparr>name = n, bank = ''Tie'', account_age = age,
                           starting_amount = start, current_amount = cur\<rparr>"

definition ties :: "client list" where
  "ties = [tie ''A'' 4 0 40, tie ''B'' 2 0 20, tie ''C'' 2 100 120,
           tie ''D'' 4 40 0, tie ''E'' 2 20 0, tie ''F'' 2 120 100]"

subsection \<open>Exchanging the two amounts of a record\<close>

definition swap_amounts :: "client \<Rightarrow> client" where
  "swap_amounts c =
     c\<lparr>starting_amount := current_amount c, current_amount := starting_amount c\<rparr>"

subsection \<open>Lines that do not parse, and well-formed files\<close>









subsection \<open>Files with spaces, a blank line, a word for a number\<close>






subsection \<open>An amount beyond the range of a float\<close>

definition tycoon :: client where
  "tycoon = \<lparr>name = ''Croesus'', bank = ''Sprint'', account_age = 1,
             starting_amount = 0, current_amount = 2 ^ 1024\<rparr>"

definition tycoon_txt :: string where
  "tycoon_txt = ''Croesus,Sprint,1,0,179769313486231590772930519078902473361797697894230657273430081157732675805500963132708477322407536021120113879871393357658789768814416622492847430639474124377767893424865485276302219601246094119453082952085005768838150682342462881473913110540827237163350510684586298239947245938479716304835356329624224137216'' @ [LF]"

section \<open>Properties\<close>

subsection \<open>The scans\<close>

lemma earnings_loop_rate_loop: "earnings_loop st cs = rate_loop earnings_per_day st cs"
  by (induction st cs rule: earnings_loop.induct) (simp_all split: sum.splits)

lemma loss_loop_rate_loop: "loss_loop st cs = rate_loop loss_per_day st cs"
  by (induction st cs rule: loss_loop.induct) (simp_all split: sum.splits)

lemma rate_loop_append:
  "rate_loop rate st (xs @ ys) =
     (case rate_loop rate st xs of Inl e \<Rightarrow> Inl e | Inr st' \<Rightarrow> rate_loop rate st' ys)"
  by (induction rate st xs rule: rate_loop.induct) (simp_all split: sum.splits)

lemma rate_loop_last:
  assumes "rate_loop rate st xs = Inr (m, t, r)" and "rate c = Inr v"
  shows "rate_loop rate st (xs @ [c]) =
           Inr (if above v m \<or> (m = Some v \<and> sooner (account_age c) t)
                then (Some v, Some (account_age c), Some c) else (m, t, r))"
  using assms by (simp add: rate_loop_append)

lemma extremal_at_unique:
  assumes "extremal_at vs cs i" "extremal_at vs cs k" "i < length cs" "k < length cs"
  shows "i = k"
proof (rule ccontr)
  assume ne: "i \<noteq> k"
  from assms have veq: "vs ! i = vs ! k"
    unfolding extremal_at_def by (meson order.antisym)
  with assms have aeq: "account_age (cs ! i) = account_age (cs ! k)"
    unfolding extremal_at_def by (metis order.antisym)
  from ne consider "i < k" | "k < i" by linarith
  then show False
    using assms veq aeq unfolding extremal_at_def by cases metis+
qed

text \<open>
  After the whole list the scan holds the rate, the age and the record of the extremal
  position. The proof adds the records one at a time at the end, as the loop meets them.
\<close>

lemma rate_loop_extremal:
  assumes "map rate cs = map Inr vs" and "cs \<noteq> []"
  shows "\<exists>i<length cs. rate_loop rate (None, None, None) cs
            = Inr (Some (vs ! i), Some (account_age (cs ! i)), Some (cs ! i))
          \<and> extremal_at vs cs i"
  using assms
proof (induction cs arbitrary: vs rule: rev_induct)
  case Nil
  then show ?case by simp
next
  case (snoc c xs)
  from snoc.prems(1) obtain us v where vs: "vs = us @ [v]"
    and us: "map rate xs = map Inr us" and v: "rate c = Inr v"
    by (cases vs rule: rev_cases) auto
  from us have len: "length us = length xs"
    by (metis length_map)
  show ?case
  proof (cases "xs = []")
    case True
    with v vs len show ?thesis
      by (simp add: above_def extremal_at_def)
  next
    case False
    from snoc.IH [OF us False] obtain i where i: "i < length xs"
      and run: "rate_loop rate (None, None, None) xs
                  = Inr (Some (us ! i), Some (account_age (xs ! i)), Some (xs ! i))"
      and ext: "extremal_at us xs i"
      by blast
    let ?upd = "us ! i < v \<or> (us ! i = v \<and> account_age c < account_age (xs ! i))"
    have step: "rate_loop rate (None, None, None) (xs @ [c]) =
        Inr (if ?upd then (Some v, Some (account_age c), Some c)
             else (Some (us ! i), Some (account_age (xs ! i)), Some (xs ! i)))"
      using rate_loop_last [OF run v] by (simp add: above_def sooner_def)
    show ?thesis
    proof (cases ?upd)
      case True
      have "extremal_at (us @ [v]) (xs @ [c]) (length xs)"
        unfolding extremal_at_def using True ext i len
        by (auto simp: nth_append less_Suc_eq extremal_at_def)
      with True step vs len show ?thesis
        by (intro exI [of _ "length xs"]) (simp add: nth_append)
    next
      case False
      have "extremal_at (us @ [v]) (xs @ [c]) i"
        unfolding extremal_at_def using False ext i len
        by (auto simp: nth_append less_Suc_eq extremal_at_def)
      with False step vs len i show ?thesis
        by (intro exI [of _ i]) (simp add: nth_append)
    qed
  qed
qed

lemma rate_loop_result:
  assumes "map rate cs = map Inr vs"
  shows "\<exists>m t r. rate_loop rate (None, None, None) cs = Inr (m, t, r)
          \<and> (cs = [] \<longrightarrow> m = None \<and> r = None)
          \<and> (cs \<noteq> [] \<longrightarrow> (\<exists>i<length cs. m = Some (vs ! i) \<and> r = Some (cs ! i)
                 \<and> extremal_at vs cs i))"
proof (cases "cs = []")
  case True
  then show ?thesis by simp
next
  case False
  from rate_loop_extremal [OF assms False] show ?thesis
    using False by auto
qed

lemma extremal_at_Max:
  assumes "extremal_at vs cs i" "i < length cs" "length vs = length cs"
  shows "Max (set vs) = vs ! i"
proof (rule Max_eqI)
  show "finite (set vs)" by simp
  show "vs ! i \<in> set vs" using assms by simp
  fix y assume "y \<in> set vs"
  then obtain j where "j < length vs" "y = vs ! j"
    by (auto simp: in_set_conv_nth)
  with assms show "y \<le> vs ! i"
    by (simp add: extremal_at_def)
qed

lemma extremal_at_positive:
  assumes "extremal_at vs cs i" "i < length cs" "length vs = length cs"
  shows "0 < vs ! i \<longleftrightarrow> (\<exists>v\<in>set vs. 0 < v)"
proof
  assume "0 < vs ! i"
  with assms show "\<exists>v\<in>set vs. 0 < v"
    by (metis nth_mem)
next
  assume "\<exists>v\<in>set vs. 0 < v"
  then obtain j where "j < length vs" "0 < vs ! j"
    by (auto simp: in_set_conv_nth)
  with assms show "0 < vs ! i"
    unfolding extremal_at_def by (metis less_le_trans)
qed

lemma largest_by_rate:
  assumes rates: "map rate cs = map Inr vs" and pos: "\<exists>v\<in>set vs. 0 < v"
  shows "\<exists>i<length cs.
           (case rate_loop rate (None, None, None) cs of
              Inl e \<Rightarrow> Inl e
            | Inr (m, t, r) \<Rightarrow> Inr (if positive_max m then r else None)) = Inr (Some (cs ! i))
         \<and> extremal_at vs cs i \<and> (\<forall>k<length cs. extremal_at vs cs k \<longrightarrow> k = i)"
proof -
  from rates have len: "length vs = length cs"
    by (metis length_map)
  from pos len have ne: "cs \<noteq> []" by auto
  from rate_loop_result [OF rates] ne obtain m t r i where
    run: "rate_loop rate (None, None, None) cs = Inr (m, t, r)"
    and i: "i < length cs" and m: "m = Some (vs ! i)" and r: "r = Some (cs ! i)"
    and ext: "extremal_at vs cs i"
    by blast
  from extremal_at_positive [OF ext i len] pos have "0 < vs ! i" by simp
  with run m r have "(case rate_loop rate (None, None, None) cs of
              Inl e \<Rightarrow> Inl e
            | Inr (m, t, r) \<Rightarrow> Inr (if positive_max m then r else None)) = Inr (Some (cs ! i))"
    by (simp add: positive_max_def)
  moreover have "\<forall>k<length cs. extremal_at vs cs k \<longrightarrow> k = i"
    using extremal_at_unique [OF _ ext _ i] by blast
  ultimately show ?thesis using i ext by blast
qed

lemma none_by_rate:
  assumes rates: "map rate cs = map Inr vs"
  shows "\<exists>res. (case rate_loop rate (None, None, None) cs of
              Inl e \<Rightarrow> Inl e
            | Inr (m, t, r) \<Rightarrow> Inr (if positive_max m then r else None)) = Inr res
         \<and> (res = None \<longleftrightarrow> cs = [] \<or> Max (set vs) \<le> 0)"
proof -
  from rates have len: "length vs = length cs"
    by (metis length_map)
  show ?thesis
  proof (cases "cs = []")
    case True
    then show ?thesis by (simp add: positive_max_def)
  next
    case False
    from rate_loop_result [OF rates] False obtain m t r i where
      run: "rate_loop rate (None, None, None) cs = Inr (m, t, r)"
      and i: "i < length cs" and m: "m = Some (vs ! i)" and r: "r = Some (cs ! i)"
      and ext: "extremal_at vs cs i"
      by blast
    from extremal_at_Max [OF ext i len] have "Max (set vs) = vs ! i" .
    with run m r False show ?thesis
      by (auto simp: positive_max_def)
  qed
qed

lemma single_by_rate:
  assumes "rate c = Inr v"
  shows "(case rate_loop rate (None, None, None) [c] of
              Inl e \<Rightarrow> Inl e
            | Inr (m, t, r) \<Rightarrow> Inr (if positive_max m then r else None))
         = Inr (if 0 < v then Some c else None)"
  using assms by (simp add: above_def positive_max_def)

subsection \<open>The rates of the example records\<close>

lemma true_div_value:
  assumes "b \<noteq> 0" "a \<noteq> 0" "nearest_double \<bar>a\<bar> \<bar>b\<bar> = v" "v < 2 ^ 1024"
  shows "true_div a b = Inr (if (a < 0) = (b < 0) then v else - v)"
  using assms by (simp add: true_div_def Let_def)

lemma nearest_double_100_5: "nearest_double 100 5 = 20" by code_simp
lemma nearest_double_200_2: "nearest_double 200 2 = 100" by code_simp
lemma nearest_double_100_100: "nearest_double 100 100 = 1" by code_simp
lemma nearest_double_800_4: "nearest_double 800 4 = 200" by code_simp
lemma nearest_double_40_4: "nearest_double 40 4 = 10" by code_simp
lemma nearest_double_20_2: "nearest_double 20 2 = 10" by code_simp

lemma earnings_five:
  "earnings_per_day ann = Inr 0" "earnings_per_day mark = Inr 20"
  "earnings_per_day josh = Inr 100" "earnings_per_day jonah = Inr (- 1)"
  "earnings_per_day franz = Inr (- 200)"
  using true_div_value [of 5 100 20] true_div_value [of 2 200 100]
    true_div_value [of 100 "- 100" 1] true_div_value [of 4 "- 800" 200]
  by (simp_all add: earnings_per_day_def ann_def mark_def josh_def jonah_def franz_def
      nearest_double_100_5 nearest_double_200_2 nearest_double_100_100 nearest_double_800_4
      true_div_def)

lemma loss_five:
  "loss_per_day ann = Inr 0" "loss_per_day mark = Inr (- 20)"
  "loss_per_day josh = Inr (- 100)" "loss_per_day jonah = Inr 1"
  "loss_per_day franz = Inr 200"
  using true_div_value [of 5 "- 100" 20] true_div_value [of 2 "- 200" 100]
    true_div_value [of 100 100 1] true_div_value [of 4 800 200]
  by (simp_all add: loss_per_day_def ann_def mark_def josh_def jonah_def franz_def
      nearest_double_100_5 nearest_double_200_2 nearest_double_100_100 nearest_double_800_4
      true_div_def)

lemma earnings_ties:
  "map earnings_per_day ties = map Inr [10, 10, 10, - 10, - 10, - 10]"
  using true_div_value [of 4 40 10] true_div_value [of 2 20 10]
    true_div_value [of 4 "- 40" 10] true_div_value [of 2 "- 20" 10]
  by (simp add: ties_def tie_def earnings_per_day_def nearest_double_40_4 nearest_double_20_2)

lemma loss_ties:
  "map loss_per_day ties = map Inr [- 10, - 10, - 10, 10, 10, 10]"
  using true_div_value [of 4 40 10] true_div_value [of 2 20 10]
    true_div_value [of 4 "- 40" 10] true_div_value [of 2 "- 20" 10]
  by (simp add: ties_def tie_def loss_per_day_def nearest_double_40_4 nearest_double_20_2)

lemma read_clients_info:
  "read_from_file_into_list disk ''clients_info.txt'' = ([], Inr [ann, mark, josh, jonah, franz])"
  by code_simp

subsection \<open>The tie-break of the two searches\<close>

text \<open>
  C1. When every rate of the sequence is computed and one of them is positive, each of
  the two searches returns the record at the one position that has the maximal rate, the
  least \<open>account_age\<close> among the records of that rate, and no earlier record of the same
  rate and the same age: an exact tie leaves the earlier record in place.
\<close>

theorem extremal_tie_break:
  "(map earnings_per_day cs = map Inr vs \<and> (\<exists>v\<in>set vs. 0 < v) \<longrightarrow>
      (\<exists>i<length cs. largest_earnings_in cs = Inr (Some (cs ! i))
         \<and> extremal_at vs cs i \<and> (\<forall>k<length cs. extremal_at vs cs k \<longrightarrow> k = i)))
   \<and> (map loss_per_day cs = map Inr ws \<and> (\<exists>w\<in>set ws. 0 < w) \<longrightarrow>
      (\<exists>i<length cs. largest_loss_in cs = Inr (Some (cs ! i))
         \<and> extremal_at ws cs i \<and> (\<forall>k<length cs. extremal_at ws cs k \<longrightarrow> k = i)))"
  unfolding largest_earnings_in_def largest_loss_in_def earnings_loop_rate_loop loss_loop_rate_loop
  using largest_by_rate [of earnings_per_day cs vs] largest_by_rate [of loss_per_day cs ws]
  by blast

theorem extremal_tie_break_witness:
  "(\<exists>i<length ties. largest_earnings_in ties = Inr (Some (ties ! i))
      \<and> extremal_at [10, 10, 10, - 10, - 10, - 10] ties i
      \<and> (\<forall>k<length ties. extremal_at [10, 10, 10, - 10, - 10, - 10] ties k \<longrightarrow> k = i))
   \<and> (\<exists>i<length ties. largest_loss_in ties = Inr (Some (ties ! i))
      \<and> extremal_at [- 10, - 10, - 10, 10, 10, 10] ties i
      \<and> (\<forall>k<length ties. extremal_at [- 10, - 10, - 10, 10, 10, 10] ties k \<longrightarrow> k = i))"
  using extremal_tie_break [of ties "[10, 10, 10, - 10, - 10, - 10]" "[- 10, - 10, - 10, 10, 10, 10]"]
    earnings_ties loss_ties
  by simp

text \<open>On the records that tie, the one of age 2 listed first wins in either search.\<close>

lemma largest_of_ties:
  "largest_earnings_in ties = Inr (Some (tie ''B'' 2 0 20))"
  "largest_loss_in ties = Inr (Some (tie ''E'' 2 20 0))"
  using earnings_ties loss_ties
  by (simp_all add: largest_earnings_in_def largest_loss_in_def ties_def tie_def
      above_def sooner_def positive_max_def)

subsection \<open>The threshold of the two searches\<close>

text \<open>
  C2. When every rate of the sequence is computed, each search returns a result, and the
  result is \<open>None\<close> exactly when the sequence is empty or its maximal rate is at most 0.
  The empty sequence gives \<open>None\<close> in both searches, and a single record is returned
  exactly when its rate is positive.
\<close>

theorem non_positive_threshold:
  "(map earnings_per_day cs = map Inr vs \<longrightarrow>
      (\<exists>res. largest_earnings_in cs = Inr res \<and> (res = None \<longleftrightarrow> cs = [] \<or> Max (set vs) \<le> 0)))
   \<and> (map loss_per_day cs = map Inr ws \<longrightarrow>
      (\<exists>res. largest_loss_in cs = Inr res \<and> (res = None \<longleftrightarrow> cs = [] \<or> Max (set ws) \<le> 0)))
   \<and> largest_earnings_in [] = Inr None
   \<and> largest_loss_in [] = Inr None
   \<and> (earnings_per_day c = Inr v \<longrightarrow> largest_earnings_in [c] = Inr (if 0 < v then Some c else None))
   \<and> (loss_per_day c = Inr w \<longrightarrow> largest_loss_in [c] = Inr (if 0 < w then Some c else None))"
  unfolding largest_earnings_in_def largest_loss_in_def earnings_loop_rate_loop loss_loop_rate_loop
  using none_by_rate [of earnings_per_day cs vs] none_by_rate [of loss_per_day cs ws]
    single_by_rate [of earnings_per_day c v] single_by_rate [of loss_per_day c w]
  by (simp add: positive_max_def)

theorem non_positive_threshold_witness:
  "(\<exists>res. largest_earnings_in [ann, jonah, franz] = Inr res
       \<and> (res = None \<longleftrightarrow> [ann, jonah, franz] = [] \<or> Max (set [0, - 1, - 200 :: rat]) \<le> 0))
   \<and> (\<exists>res. largest_loss_in [ann, mark, josh] = Inr res
       \<and> (res = None \<longleftrightarrow> [ann, mark, josh] = [] \<or> Max (set [0, - 20, - 100 :: rat]) \<le> 0))
   \<and> largest_earnings_in [mark] = Inr (Some mark)
   \<and> largest_loss_in [mark] = Inr None"
  using non_positive_threshold [of "[ann, jonah, franz]" "[0, - 1, - 200]" "[0, - 1, - 200]" mark 20 "- 20"]
    non_positive_threshold [of "[ann, mark, josh]" "[0, 20, 100]" "[0, - 20, - 100]" mark 20 "- 20"]
    earnings_five loss_five
  by simp

subsection \<open>A missing file\<close>



subsection \<open>\<open>filter_by_bank\<close>\<close>

lemma bank_comprehension_filter:
  "bank_comprehension b cs = filter (\<lambda>c. bank c = b) cs"
  by (induction cs) simp_all

text \<open>
  C4. \<open>filter_by_bank\<close> returns what the comprehension makes of the records read. For
  every record sequence and bank \<open>b\<close>, a record is in the result exactly when it is in the
  sequence and its bank is the string \<open>b\<close> (equality of strings, character by character),
  as many times as in the sequence; the result is a subsequence of the input, so the
  order is kept; and it is empty when no record matches.
\<close>

theorem filter_by_bank_correct:
  "(read_from_file_into_list fs filename = (out, Inr clients) \<longrightarrow>
      filter_by_bank fs filename b = (out, Inr (bank_comprehension b clients)))
   \<and> (\<forall>r. r \<in> set (bank_comprehension b clients) \<longleftrightarrow> r \<in> set clients \<and> bank r = b)
   \<and> (\<forall>r. count_list (bank_comprehension b clients) r
            = (if bank r = b then count_list clients r else 0))
   \<and> subseq (bank_comprehension b clients) clients
   \<and> ((\<forall>c\<in>set clients. bank c \<noteq> b) \<longrightarrow> bank_comprehension b clients = [])"
proof -
  let ?res = "bank_comprehension b clients"
  have run: "read_from_file_into_list fs filename = (out, Inr clients) \<longrightarrow>
      filter_by_bank fs filename b = (out, Inr ?res)"
    by (simp add: filter_by_bank_def)
  have mem: "\<forall>r. r \<in> set ?res \<longleftrightarrow> r \<in> set clients \<and> bank r = b"
    by (simp add: bank_comprehension_filter)
  have cnt: "\<forall>r. count_list ?res r = (if bank r = b then count_list clients r else 0)"
    by (induction clients) auto
  have ord: "subseq ?res clients"
    by (simp add: bank_comprehension_filter)
  have none: "(\<forall>c\<in>set clients. bank c \<noteq> b) \<longrightarrow> ?res = []"
    by (simp add: bank_comprehension_filter filter_empty_conv)
  from run mem cnt ord none show ?thesis by blast
qed

theorem filter_by_bank_correct_witness:
  "filter_by_bank disk ''clients_info.txt'' ''sprint''
     = ([], Inr (bank_comprehension ''sprint'' [ann, mark, josh, jonah, franz]))
   \<and> bank_comprehension ''sprint'' [ann, mark, josh, jonah, franz] = []"
proof -
  have "\<forall>c\<in>set [ann, mark, josh, jonah, franz]. bank c \<noteq> ''sprint''"
    by (simp add: ann_def mark_def josh_def jonah_def franz_def)
  with filter_by_bank_correct [of disk "''clients_info.txt''" "[]"
      "[ann, mark, josh, jonah, franz]" "''sprint''"] read_clients_info
  show ?thesis by blast
qed

subsection \<open>Loss is negated earnings\<close>

lemma true_div_minus: "true_div (- a) b = map_sum id uminus (true_div a b)"
  by (simp add: true_div_def Let_def) auto

lemma loss_negates_earnings: "loss_per_day c = map_sum id uminus (earnings_per_day c)"
proof -
  have "starting_amount c - current_amount c = - (current_amount c - starting_amount c)"
    by simp
  then show ?thesis
    unfolding loss_per_day_def earnings_per_day_def by (metis true_div_minus)
qed

lemma earnings_swap: "earnings_per_day (swap_amounts c) = loss_per_day c"
  by (simp add: earnings_per_day_def loss_per_day_def swap_amounts_def)

lemma age_swap: "account_age (swap_amounts c) = account_age c"
  by (simp add: swap_amounts_def)

lemma swap_swap: "swap_amounts (swap_amounts c) = c"
  by (simp add: swap_amounts_def)

lemma swap_inj: "swap_amounts c = swap_amounts d \<longleftrightarrow> c = d"
  by (metis swap_swap)

lemma rate_loop_swap:
  "rate_loop earnings_per_day (m, t, map_option swap_amounts r) (map swap_amounts cs)
     = map_sum id (\<lambda>(m', t', r'). (m', t', map_option swap_amounts r'))
         (rate_loop loss_per_day (m, t, r) cs)"
proof (induction cs arbitrary: m t r)
  case Nil
  then show ?case by simp
next
  case (Cons c cs)
  show ?case
  proof (cases "loss_per_day c")
    case (Inl e)
    then show ?thesis by (simp add: earnings_swap)
  next
    case (Inr v)
    show ?thesis
      using Cons.IH [of "Some v" "Some (account_age c)" "Some c"] Cons.IH [of m t r] Inr
      by (simp add: earnings_swap age_swap)
  qed
qed

lemma largest_swap:
  "largest_earnings_in (map swap_amounts cs)
     = map_sum id (map_option swap_amounts) (largest_loss_in cs)"
  unfolding largest_earnings_in_def largest_loss_in_def earnings_loop_rate_loop loss_loop_rate_loop
  using rate_loop_swap [of None None None cs]
  by (cases "rate_loop loss_per_day (None, None, None) cs") auto

text \<open>
  C9. The loss rate of line 114 is the negation of \<open>earnings_per_day\<close>: the same
  exception where that one raises, the negated float otherwise. So the loss search on a
  sequence makes the choice that the earnings search makes on the sequence with the two
  amounts of every record exchanged: the results correspond under the exchange, and the
  one is the record at a position exactly when the other is the record at that position.
\<close>

theorem loss_mirrors_earnings:
  "loss_per_day c = map_sum id uminus (earnings_per_day c)
   \<and> largest_earnings_in (map swap_amounts cs)
       = map_sum id (map_option swap_amounts) (largest_loss_in cs)
   \<and> (\<forall>i<length cs. largest_loss_in cs = Inr (Some (cs ! i))
         \<longleftrightarrow> largest_earnings_in (map swap_amounts cs) = Inr (Some (map swap_amounts cs ! i)))"
proof -
  have pos: "\<forall>i<length cs. largest_loss_in cs = Inr (Some (cs ! i))
         \<longleftrightarrow> largest_earnings_in (map swap_amounts cs) = Inr (Some (map swap_amounts cs ! i))"
  proof (intro allI impI)
    fix i assume i: "i < length cs"
    show "largest_loss_in cs = Inr (Some (cs ! i))
         \<longleftrightarrow> largest_earnings_in (map swap_amounts cs) = Inr (Some (map swap_amounts cs ! i))"
    proof (cases "largest_loss_in cs")
      case (Inl e)
      then show ?thesis by (simp add: largest_swap)
    next
      case (Inr res)
      then show ?thesis using i
        by (cases res) (simp_all add: largest_swap swap_inj)
    qed
  qed
  with loss_negates_earnings largest_swap show ?thesis by blast
qed

theorem loss_mirrors_earnings_witness:
  "loss_per_day franz = map_sum id uminus (earnings_per_day franz)
   \<and> largest_earnings_in (map swap_amounts [ann, mark, josh, jonah, franz]) = Inr (Some (swap_amounts franz))
   \<and> largest_earnings_in (map swap_amounts [ann, mark, josh, jonah, franz])
        = Inr (Some (map swap_amounts [ann, mark, josh, jonah, franz] ! 4))"
proof -
  have l: "largest_loss_in [ann, mark, josh, jonah, franz] = Inr (Some franz)"
    by (simp add: largest_loss_in_def loss_five above_def sooner_def positive_max_def)
  have "(4::nat) < length [ann, mark, josh, jonah, franz]" by simp
  with loss_mirrors_earnings [of franz "[ann, mark, josh, jonah, franz]"] l
  show ?thesis by simp
qed

subsection \<open>The file of the \<open>__main__\<close> block\<close>

text \<open>
  C6. On the five records Ann, Mark, Josh, Jonah and Franz, read from their file:
  \<open>filter_by_bank\<close> with \<open>Sprint\<close> returns Ann and Mark in that order; the
  earnings rates are 0, 20, 100, -1 and -200 and the earnings search returns Josh, of
  rate 100; the loss rates are 0, -20, -100, 1 and 200 and the loss search returns
  Franz, of rate 200.
\<close>

theorem concrete_scenario:
  "read_from_file_into_list disk ''clients_info.txt'' = ([], Inr [ann, mark, josh, jonah, franz])
   \<and> filter_by_bank disk ''clients_info.txt'' ''Sprint'' = ([], Inr [ann, mark])
   \<and> map earnings_per_day [ann, mark, josh, jonah, franz] = map Inr [0, 20, 100, - 1, - 200]
   \<and> largest_earnings_per_day disk ''clients_info.txt'' = ([], Inr (Some josh))
   \<and> earnings_per_day josh = Inr 100
   \<and> map loss_per_day [ann, mark, josh, jonah, franz] = map Inr [0, - 20, - 100, 1, 200]
   \<and> largest_loss_per_day disk ''clients_info.txt'' = ([], Inr (Some franz))
   \<and> loss_per_day franz = Inr 200"
proof -
  have f: "filter_by_bank disk ''clients_info.txt'' ''Sprint'' = ([], Inr [ann, mark])"
    by (simp add: filter_by_bank_def read_clients_info ann_def mark_def josh_def jonah_def franz_def)
  have e: "largest_earnings_per_day disk ''clients_info.txt'' = ([], Inr (Some josh))"
    by (simp add: largest_earnings_per_day_def read_clients_info largest_earnings_in_def
        earnings_five above_def sooner_def positive_max_def)
  have l: "largest_loss_per_day disk ''clients_info.txt'' = ([], Inr (Some franz))"
    by (simp add: largest_loss_per_day_def read_clients_info largest_loss_in_def
        loss_five above_def sooner_def positive_max_def)
  from f e l read_clients_info earnings_five loss_five show ?thesis by simp
qed

subsection \<open>Splitting and stripping\<close>

lemma split_on_not_Nil: "split_on sep s \<noteq> []"
  by (induction s) (simp_all split: list.splits)


















subsection \<open>One line, the lines of a text, the loop over them\<close>








lemma py_int_error: "py_int x = Inl e \<Longrightarrow> e = ValueError"
  by (auto simp: py_int_def Let_def split: option.splits)

lemma unpack_default:
  "length xs \<noteq> 5 \<Longrightarrow> (case xs of [n, b, a, s, c] \<Rightarrow> f n b a s c | _ \<Rightarrow> d) = d"
  by (auto split: list.splits)

lemma parse_line_error: "parse_line l = Inl e \<Longrightarrow> e = ValueError"
proof (cases "length (split_on CHR '','' (strip l)) = 5")
  case False
  assume "parse_line l = Inl e"
  with False show ?thesis by (simp add: parse_line_def unpack_default)
next
  case True
  assume p: "parse_line l = Inl e"
  from True obtain n b a s c where "split_on CHR '','' (strip l) = [n, b, a, s, c]"
    by (auto simp: length_Suc_conv eval_nat_numeral)
  with p show ?thesis
    by (auto simp: parse_line_def split: sum.splits dest: py_int_error)
qed










subsection \<open>A well-formed file\<close>




subsection \<open>What is trimmed, and blank lines\<close>




subsection \<open>Lines that do not parse\<close>



subsection \<open>The range of the division\<close>

lemma pow2_powi: "pow2 k = 2 powi k"
  by (simp add: pow2_def power_int_def power_inverse inverse_eq_divide power_one_over)

lemma pow2_pos: "0 < pow2 k"
  by (simp add: pow2_powi)

lemma pow2_add: "pow2 (j + k) = pow2 j * pow2 k"
  by (simp add: pow2_powi power_int_add)

lemma pow2_mono: "j \<le> k \<Longrightarrow> pow2 j \<le> pow2 k"
  by (simp add: pow2_powi power_int_increasing)

lemma pow2_nat: "0 \<le> k \<Longrightarrow> pow2 k = 2 ^ nat k"
  by (simp add: pow2_def)

lemma floor_log2_lower:
  assumes "0 < a" "0 < b"
  shows "pow2 (floor_log2 a b) * of_int b \<le> of_int a"
proof (cases "pow2 (bitlen a - bitlen b) * of_int b \<le> (of_int a :: rat)")
  case True
  then show ?thesis by (simp add: floor_log2_def)
next
  case False
  have la: "1 \<le> bitlen a" using assms(1) by (simp add: bitlen_alt_def)
  have lb: "0 \<le> bitlen b" by (rule bitlen_nonneg)
  from bitlen_bounds [OF assms(1)] have "(2::int) ^ nat (bitlen a - 1) \<le> a" by simp
  then have a: "(2::rat) ^ nat (bitlen a - 1) \<le> of_int a"
    by (metis of_int_le_iff of_int_numeral of_int_power)
  from bitlen_bounds [OF assms(2)] have "b < 2 ^ nat (bitlen b)" by simp
  then have b: "(of_int b :: rat) < 2 ^ nat (bitlen b)"
    by (metis of_int_less_iff of_int_numeral of_int_power)
  have "pow2 (bitlen a - bitlen b - 1) * of_int b \<le> pow2 (bitlen a - bitlen b - 1) * pow2 (bitlen b)"
    using b lb pow2_pos [of "bitlen a - bitlen b - 1"] by (simp add: pow2_nat)
  also have "\<dots> = pow2 (bitlen a - 1)"
    using pow2_add [of "bitlen a - bitlen b - 1" "bitlen b"] by simp
  also have "\<dots> \<le> of_int a" using a la by (simp add: pow2_nat)
  finally show ?thesis using False by (simp add: floor_log2_def)
qed

lemma round_half_even_le: "of_int (round_half_even x) \<le> x + 1 / 2"
proof -
  define f where "f = (of_int \<lfloor>x\<rfloor> :: rat)"
  have "f \<le> x" unfolding f_def by simp
  moreover have "of_int (round_half_even x) = f
      \<or> (of_int (round_half_even x) = f + 1 \<and> 1 / 2 \<le> x - f)"
    unfolding round_half_even_def Let_def f_def by auto
  ultimately show ?thesis by linarith
qed

lemma nearest_double_bound:
  assumes "0 < a" "0 < b" "of_int a < (2::rat) ^ 1023 * of_int b"
  shows "nearest_double a b < 2 ^ 1024"
proof -
  let ?e = "floor_log2 a b"
  let ?ulp = "pow2 (max (?e - 52) (- 1074))"
  let ?q = "of_int a / of_int b :: rat"
  have bpos: "(0::rat) < of_int b" using assms(2) by simp
  have q: "?q < 2 ^ 1023" using assms(3) bpos by (simp add: pos_divide_less_eq)
  have "pow2 ?e * of_int b < pow2 1023 * of_int b"
    using floor_log2_lower [OF assms(1,2)] assms(3) by (simp add: pow2_nat)
  then have "pow2 ?e < pow2 1023" using bpos by simp
  then have "?e < 1023" using pow2_mono [of 1023 ?e] by (cases "?e < 1023") auto
  then have "max (?e - 52) (- 1074) \<le> 970" by simp
  then have ulp: "?ulp \<le> 2 ^ 970" using pow2_mono [of "max (?e - 52) (- 1074)" 970]
    by (simp add: pow2_nat)
  have upos: "0 < ?ulp" by (rule pow2_pos)
  have "nearest_double a b = of_int (round_half_even (?q / ?ulp)) * ?ulp"
    by (simp add: nearest_double_def Let_def)
  also have "\<dots> \<le> (?q / ?ulp + 1 / 2) * ?ulp"
    using round_half_even_le [of "?q / ?ulp"] upos by (simp add: mult_right_mono del: of_int_add)
  also have "\<dots> = ?q + ?ulp / 2" using upos by (simp add: field_simps)
  also have "\<dots> < 2 ^ 1023 + 2 ^ 970 / 2" using q ulp by simp
  also have "\<dots> < (2::rat) ^ 1024" by simp
  finally show ?thesis .
qed

lemma true_div_in_range:
  assumes "b \<noteq> 0" "\<bar>a\<bar> < 2 ^ 1023 * \<bar>b\<bar>"
  shows "\<exists>v. true_div a b = Inr v"
proof (cases "a = 0")
  case True
  with assms(1) show ?thesis by (simp add: true_div_def)
next
  case False
  from assms(2) have "(of_int \<bar>a\<bar> :: rat) < of_int (2 ^ 1023 * \<bar>b\<bar>)"
    by (simp only: of_int_less_iff)
  then have "(of_int \<bar>a\<bar> :: rat) < 2 ^ 1023 * of_int \<bar>b\<bar>" by simp
  with False assms(1) have "nearest_double \<bar>a\<bar> \<bar>b\<bar> < 2 ^ 1024"
    by (intro nearest_double_bound) simp_all
  with False assms(1) show ?thesis by (simp add: true_div_def Let_def)
qed

lemma true_div_zero: "true_div a b = Inl ZeroDivisionError \<longleftrightarrow> b = 0"
  by (simp add: true_div_def Let_def)

lemma bitlen_power2: "bitlen (2 ^ n) = int n + 1"
  using bitlen_pow2 [of 1 n] by (simp add: bitlen_alt_def)

lemma floor_log2_power2: "floor_log2 (2 ^ n) 1 = int n"
  by (simp add: floor_log2_def bitlen_power2 bitlen_alt_def pow2_nat)

lemma round_half_even_int: "round_half_even (of_int k) = k"
  by (simp add: round_half_even_def)

lemma nearest_double_power2: "nearest_double (2 ^ (m + 52)) 1 = 2 ^ (m + 52)"
proof -
  have ulp: "pow2 (max (floor_log2 (2 ^ (m + 52)) 1 - 52) (- 1074)) = 2 ^ m"
    by (simp add: floor_log2_power2 pow2_nat)
  have "(of_int (2 ^ (m + 52)) :: rat) / of_int 1 / 2 ^ m = of_int (2 ^ 52)"
    by (simp add: power_add)
  then have "round_half_even (of_int (2 ^ (m + 52)) / of_int 1 / 2 ^ m) = 2 ^ 52"
    by (simp only: round_half_even_int)
  then show ?thesis
    unfolding nearest_double_def Let_def ulp by (simp add: power_add)
qed

lemma true_div_overflow: "true_div (2 ^ (m + 1024)) 1 = Inl OverflowError"
proof -
  have "nearest_double (2 ^ ((m + 972) + 52)) 1 = 2 ^ ((m + 972) + 52)"
    by (rule nearest_double_power2)
  then have "nearest_double (2 ^ (m + 1024)) 1 = 2 ^ m * 2 ^ 1024"
    by (simp add: power_add add.assoc)
  moreover have "(2::rat) ^ 1024 \<le> 2 ^ m * 2 ^ 1024"
    by simp
  ultimately show ?thesis
    unfolding true_div_def Let_def by (simp del: power_numeral)
qed

lemma read_tycoon:
  "read_from_file_into_list [''vault.txt'' \<mapsto> tycoon_txt] ''vault.txt'' = ([], Inr [tycoon])"
proof -
  have "read_from_file_into_list [''vault.txt'' \<mapsto> tycoon_txt] ''vault.txt''
      = ([], Inr [\<lparr>name = ''Croesus'', bank = ''Sprint'', account_age = 1,
             starting_amount = 0, current_amount = 179769313486231590772930519078902473361797697894230657273430081157732675805500963132708477322407536021120113879871393357658789768814416622492847430639474124377767893424865485276302219601246094119453082952085005768838150682342462881473913110540827237163350510684586298239947245938479716304835356329624224137216\<rparr>])"
    by code_simp
  then show ?thesis by (simp add: tycoon_def)
qed

subsection \<open>Exceptions of the rate computations\<close>

lemma rate_loop_error:
  "rate_loop rate st cs = Inl e \<Longrightarrow> \<exists>c\<in>set cs. rate c = Inl e"
  by (induction rate st cs rule: rate_loop.induct) (auto split: sum.splits if_splits)

lemma largest_in_error:
  "largest_earnings_in cs = Inl e \<Longrightarrow> \<exists>c\<in>set cs. earnings_per_day c = Inl e"
  "largest_loss_in cs = Inl e \<Longrightarrow> \<exists>c\<in>set cs. loss_per_day c = Inl e"
  unfolding largest_earnings_in_def largest_loss_in_def earnings_loop_rate_loop loss_loop_rate_loop
  by (auto split: sum.splits dest: rate_loop_error)

lemma read_loop_error: "read_loop acc ls = Inl e \<Longrightarrow> e = ValueError"
  by (induction ls arbitrary: acc) (auto split: sum.splits dest: parse_line_error)

lemma read_error: "snd (read_from_file_into_list fs filename) = Inl e \<Longrightarrow> e = ValueError"
  by (auto simp: read_from_file_into_list_def split: option.splits dest: read_loop_error)

lemma rate_zero:
  "earnings_per_day c = Inl ZeroDivisionError \<longleftrightarrow> account_age c = 0"
  "loss_per_day c = Inl ZeroDivisionError \<longleftrightarrow> account_age c = 0"
  by (simp_all add: earnings_per_day_def loss_per_day_def true_div_zero)

lemma rate_in_range:
  assumes "account_age c \<noteq> 0"
    and "\<bar>current_amount c - starting_amount c\<bar> < 2 ^ 1023 * \<bar>account_age c\<bar>"
  shows "\<exists>v. earnings_per_day c = Inr v" "\<exists>v. loss_per_day c = Inr v"
proof -
  show "\<exists>v. earnings_per_day c = Inr v"
    unfolding earnings_per_day_def using assms by (intro true_div_in_range)
  have "\<bar>starting_amount c - current_amount c\<bar> = \<bar>current_amount c - starting_amount c\<bar>"
    by simp
  with assms show "\<exists>v. loss_per_day c = Inr v"
    unfolding loss_per_day_def by (intro true_div_in_range) simp_all
qed

text \<open>
  C8, as stated, fails: with a nonzero \<open>account_age\<close> the division is still not total.
  A quotient beyond the range of a float raises \<open>OverflowError\<close>, in
  \<open>earnings_per_day\<close>, in both searches, and from a file that holds such an amount.
\<close>

theorem rate_overflow_counterexample:
  "account_age tycoon \<noteq> 0
   \<and> earnings_per_day tycoon = Inl OverflowError
   \<and> largest_earnings_in [tycoon] = Inl OverflowError
   \<and> account_age (swap_amounts tycoon) \<noteq> 0
   \<and> largest_loss_in [swap_amounts tycoon] = Inl OverflowError
   \<and> largest_earnings_per_day [''vault.txt'' \<mapsto> tycoon_txt] ''vault.txt''
       = ([], Inl OverflowError)"
proof -
  have "earnings_per_day tycoon = true_div (2 ^ (0 + 1024)) 1"
    by (simp add: earnings_per_day_def tycoon_def)
  then have e: "earnings_per_day tycoon = Inl OverflowError"
    by (simp only: true_div_overflow)
  then have l: "loss_per_day (swap_amounts tycoon) = Inl OverflowError"
    by (simp add: loss_per_day_def earnings_per_day_def swap_amounts_def)
  have a: "account_age tycoon \<noteq> 0" "account_age (swap_amounts tycoon) \<noteq> 0"
    by (simp_all add: tycoon_def swap_amounts_def)
  from e l a read_tycoon show ?thesis
    by (simp add: largest_earnings_per_day_def largest_earnings_in_def largest_loss_in_def)
qed

text \<open>
  C8, amended. When every \<open>account_age\<close> is nonzero, no rate computation divides by
  zero: \<open>ZeroDivisionError\<close> leaves neither \<open>earnings_per_day\<close> nor the rate of line
  114 nor any of the three operations (\<open>filter_by_bank\<close> computes no rate at all).
  The two searches return a result when moreover every difference of the amounts is
  below \<open>2^1023\<close> times the age in magnitude.
\<close>

theorem no_division_by_zero:
  "((\<forall>c\<in>set cs. account_age c \<noteq> 0) \<longrightarrow>
      (\<forall>c\<in>set cs. earnings_per_day c \<noteq> Inl ZeroDivisionError
                   \<and> loss_per_day c \<noteq> Inl ZeroDivisionError)
      \<and> largest_earnings_in cs \<noteq> Inl ZeroDivisionError
      \<and> largest_loss_in cs \<noteq> Inl ZeroDivisionError)
   \<and> snd (filter_by_bank fs filename b) \<noteq> Inl ZeroDivisionError
   \<and> (read_from_file_into_list fs filename = (out, Inr cs)
        \<and> (\<forall>c\<in>set cs. account_age c \<noteq> 0) \<longrightarrow>
      snd (largest_earnings_per_day fs filename) \<noteq> Inl ZeroDivisionError
      \<and> snd (largest_loss_per_day fs filename) \<noteq> Inl ZeroDivisionError)
   \<and> ((\<forall>c\<in>set cs. account_age c \<noteq> 0
          \<and> \<bar>current_amount c - starting_amount c\<bar> < 2 ^ 1023 * \<bar>account_age c\<bar>) \<longrightarrow>
      (\<exists>r. largest_earnings_in cs = Inr r) \<and> (\<exists>r. largest_loss_in cs = Inr r))"
proof -
  have lists: "(\<forall>c\<in>set cs. account_age c \<noteq> 0) \<longrightarrow>
      (\<forall>c\<in>set cs. earnings_per_day c \<noteq> Inl ZeroDivisionError
                   \<and> loss_per_day c \<noteq> Inl ZeroDivisionError)
      \<and> largest_earnings_in cs \<noteq> Inl ZeroDivisionError
      \<and> largest_loss_in cs \<noteq> Inl ZeroDivisionError"
    using largest_in_error [of cs ZeroDivisionError] by (auto simp: rate_zero)
  have filt: "snd (filter_by_bank fs filename b) \<noteq> Inl ZeroDivisionError"
  proof (cases "read_from_file_into_list fs filename")
    case (Pair o' res)
    then show ?thesis
      using read_error [of fs filename] by (cases res) (auto simp: filter_by_bank_def)
  qed
  have files: "read_from_file_into_list fs filename = (out, Inr cs)
        \<and> (\<forall>c\<in>set cs. account_age c \<noteq> 0) \<longrightarrow>
      snd (largest_earnings_per_day fs filename) \<noteq> Inl ZeroDivisionError
      \<and> snd (largest_loss_per_day fs filename) \<noteq> Inl ZeroDivisionError"
    using lists by (auto simp: largest_earnings_per_day_def largest_loss_per_day_def)
  have total: "(\<forall>c\<in>set cs. account_age c \<noteq> 0
          \<and> \<bar>current_amount c - starting_amount c\<bar> < 2 ^ 1023 * \<bar>account_age c\<bar>) \<longrightarrow>
      (\<exists>r. largest_earnings_in cs = Inr r) \<and> (\<exists>r. largest_loss_in cs = Inr r)"
  proof
    assume range: "\<forall>c\<in>set cs. account_age c \<noteq> 0
          \<and> \<bar>current_amount c - starting_amount c\<bar> < 2 ^ 1023 * \<bar>account_age c\<bar>"
    have "\<exists>r. largest_earnings_in cs = Inr r"
    proof (cases "largest_earnings_in cs")
      case (Inl e)
      from largest_in_error(1) [OF Inl] range rate_in_range(1) show ?thesis by fastforce
    next
      case (Inr r)
      then show ?thesis by simp
    qed
    moreover have "\<exists>r. largest_loss_in cs = Inr r"
    proof (cases "largest_loss_in cs")
      case (Inl e)
      from largest_in_error(2) [OF Inl] range rate_in_range(2) show ?thesis by fastforce
    next
      case (Inr r)
      then show ?thesis by simp
    qed
    ultimately show "(\<exists>r. largest_earnings_in cs = Inr r) \<and> (\<exists>r. largest_loss_in cs = Inr r)" ..
  qed
  from lists filt files total show ?thesis by blast
qed

theorem no_division_by_zero_witness:
  "earnings_per_day franz \<noteq> Inl ZeroDivisionError
   \<and> loss_per_day franz \<noteq> Inl ZeroDivisionError
   \<and> largest_earnings_in [ann, mark, josh, jonah, franz] \<noteq> Inl ZeroDivisionError
   \<and> largest_loss_in [ann, mark, josh, jonah, franz] \<noteq> Inl ZeroDivisionError
   \<and> snd (filter_by_bank disk ''clients_info.txt'' ''Sprint'') \<noteq> Inl ZeroDivisionError
   \<and> snd (largest_earnings_per_day disk ''clients_info.txt'') \<noteq> Inl ZeroDivisionError
   \<and> snd (largest_loss_per_day disk ''clients_info.txt'') \<noteq> Inl ZeroDivisionError
   \<and> (\<exists>r. largest_earnings_in [ann, mark, josh, jonah, franz] = Inr r)
   \<and> (\<exists>r. largest_loss_in [ann, mark, josh, jonah, franz] = Inr r)"
proof -
  have r: "\<forall>c\<in>set [ann, mark, josh, jonah, franz]. account_age c \<noteq> 0
          \<and> \<bar>current_amount c - starting_amount c\<bar> < 2 ^ 1023 * \<bar>account_age c\<bar>"
    by (simp add: ann_def mark_def josh_def jonah_def franz_def)
  then have z: "\<forall>c\<in>set [ann, mark, josh, jonah, franz]. account_age c \<noteq> 0"
    by blast
  from no_division_by_zero [of "[ann, mark, josh, jonah, franz]" disk "''clients_info.txt''"
      "''Sprint''" "[]"] r z read_clients_info
  show ?thesis by simp
qed

subsection \<open>Checks of the division\<close>

text \<open>
  The division rounds: a third is the double nearest to it, and above \<open>2^53\<close> an odd
  integer goes to the even neighbour of its two doubles. So two different quotients can
  be the same float, and the scans, which compare floats, then see a tie of rates.
\<close>

lemma nearest_double_third:
  "nearest_double 1 3 = 6004799503160661 / 18014398509481984"
  by code_simp

lemma nearest_double_ties_to_even:
  "nearest_double 9007199254740993 1 = 9007199254740992"
  "nearest_double 9007199254740995 1 = 9007199254740996"
  by code_simp+

lemma true_div_third: "true_div 1 3 = Inr (6004799503160661 / 18014398509481984)"
  using true_div_value [of 3 1 "6004799503160661 / 18014398509481984"]
  by (simp add: nearest_double_third)

lemma true_div_same_float:
  "true_div 9007199254740993 1 = true_div 9007199254740992 1"
  using true_div_value [of 1 9007199254740993 9007199254740992]
    true_div_value [of 1 9007199254740992 9007199254740992]
    nearest_double_power2 [of 1]
  by (simp add: nearest_double_ties_to_even)

end
